theory Spec2Isabelle
  imports Main "HOL-Library.Word" "HOL-Library.Product_Lexorder" "HOL-Library.Multiset"
begin

section \<open>Strings of the source language\<close>

text \<open>
  A JavaScript string is a sequence of UTF-16 code units; \<open>s.length\<close> counts code units.
  \<open>String.prototype.trim\<close> removes the leading and trailing run of white space and line
  terminators (ECMAScript: TAB, LF, VT, FF, CR, SPACE, NBSP, U+1680, U+2000..U+200A,
  U+2028, U+2029, U+202F, U+205F, U+3000, U+FEFF).
\<close>

type_synonym jsstring = "16 word list"

definition isWhiteSpace :: "16 word \<Rightarrow> bool" where
  "isWhiteSpace c \<longleftrightarrow>
     c = 0x9 \<or> c = 0xA \<or> c = 0xB \<or> c = 0xC \<or> c = 0xD \<or> c = 0x20 \<or> c = 0xA0 \<or>
     c = 0x1680 \<or> (0x2000 \<le> c \<and> c \<le> 0x200A) \<or> c = 0x2028 \<or> c = 0x2029 \<or>
     c = 0x202F \<or> c = 0x205F \<or> c = 0x3000 \<or> c = 0xFEFF"

definition trim :: "jsstring \<Rightarrow> jsstring" where
  "trim s = rev (dropWhile isWhiteSpace (rev (dropWhile isWhiteSpace s)))"

section \<open>Documents and the database\<close>

text \<open>
  A document of table \<open>todos\<close>: the system fields \<open>_id\<close> and \<open>_creationTime\<close> and the three
  fields the mutations write. An optional field is an \<open>option\<close>.
\<close>

record todo =
  todo_id :: nat
  creationTime :: nat
  title :: jsstring
  description :: "jsstring option"
  completed :: bool

text \<open>
  The database behind \<open>ctx.db\<close>: the documents of the table, the next identifier to hand
  out and the clock that stamps \<open>_creationTime\<close>. Both counters only grow, so an identifier
  or a creation time is never given twice.
\<close>

record db =
  todos :: "todo list"
  next_id :: nat
  clock :: nat

datatype error =
    TitleRequired          \<comment> \<open>"Title is required"\<close>
  | TitleEmpty             \<comment> \<open>"Title cannot be empty"\<close>
  | TitleTooLong           \<comment> \<open>"Title must be less than 200 characters"\<close>
  | DescriptionTooLong     \<comment> \<open>"Description must be less than 1000 characters"\<close>
  | TodoNotFound           \<comment> \<open>"Todo not found"\<close>
  | FailedToCreate         \<comment> \<open>"Failed to create todo"\<close>
  | FailedToUpdate         \<comment> \<open>"Failed to update todo"\<close>
  | NoSuchDocument         \<comment> \<open>raised by the database when patching or deleting a missing document\<close>

datatype failure = InvalidInput | NotFound | PersistenceError

text \<open>The failure classes of the specification, by the message the code throws.\<close>

fun failure_of :: "error \<Rightarrow> failure" where
  "failure_of TitleRequired = InvalidInput"
| "failure_of TitleEmpty = InvalidInput"
| "failure_of TitleTooLong = InvalidInput"
| "failure_of DescriptionTooLong = InvalidInput"
| "failure_of TodoNotFound = NotFound"
| "failure_of FailedToCreate = PersistenceError"
| "failure_of FailedToUpdate = PersistenceError"
| "failure_of NoSuchDocument = PersistenceError"

text \<open>\<open>ctx.db.get(id)\<close>: the document with that identifier, or null.\<close>

definition db_get :: "db \<Rightarrow> nat \<Rightarrow> todo option" where
  "db_get s i = find (\<lambda>d. todo_id d = i) (todos s)"

text \<open>
  \<open>ctx.db.insert("todos", {title, description, completed})\<close>: stores a new document under a
  fresh identifier, stamped with the current creation time, and returns the identifier.
\<close>

definition db_insert :: "db \<Rightarrow> jsstring \<Rightarrow> jsstring option \<Rightarrow> bool \<Rightarrow> nat \<times> db" where
  "db_insert s t d c =
     (next_id s,
      s\<lparr>todos := todos s @
           [\<lparr>todo_id = next_id s, creationTime = clock s,
             title = t, description = d, completed = c\<rparr>],
        next_id := Suc (next_id s),
        clock := Suc (clock s)\<rparr>)"

text \<open>
  The object handed to \<open>ctx.db.patch\<close>: each key is either absent or carries a value.
\<close>

record updateData =
  u_title :: "jsstring option"
  u_description :: "jsstring option"
  u_completed :: "bool option"

definition apply_patch :: "updateData \<Rightarrow> todo \<Rightarrow> todo" where
  "apply_patch u d =
     d\<lparr>title := (case u_title u of None \<Rightarrow> title d | Some t \<Rightarrow> t),
       description := (case u_description u of None \<Rightarrow> description d | Some x \<Rightarrow> Some x),
       completed := (case u_completed u of None \<Rightarrow> completed d | Some b \<Rightarrow> b)\<rparr>"

text \<open>
  \<open>ctx.db.patch(id, data)\<close>: shallow merge of the given keys into the document; the
  database raises when there is no such document.
\<close>

definition db_patch :: "db \<Rightarrow> nat \<Rightarrow> updateData \<Rightarrow> error + db" where
  "db_patch s i u =
     (if db_get s i = None then Inl NoSuchDocument
      else Inr (s\<lparr>todos := map (\<lambda>d. if todo_id d = i then apply_patch u d else d) (todos s)\<rparr>))"

text \<open>\<open>ctx.db.delete(id)\<close>: removes the document; raises when there is none.\<close>

definition db_delete :: "db \<Rightarrow> nat \<Rightarrow> error + db" where
  "db_delete s i =
     (if db_get s i = None then Inl NoSuchDocument
      else Inr (s\<lparr>todos := filter (\<lambda>d. todo_id d \<noteq> i) (todos s)\<rparr>))"

text \<open>
  \<open>.order("desc")\<close>: documents by descending \<open>_creationTime\<close>, ties broken by \<open>_id\<close>.
\<close>

definition order_desc :: "todo list \<Rightarrow> todo list" where
  "order_desc ds = rev (sort_key (\<lambda>d. (creationTime d, todo_id d)) ds)"

text \<open>
  Modelled from the spec: the schema that declares table \<open>todos\<close> and its index
  \<open>by_completed\<close> is not among the sources. The index is the structure keyed on the
  \<open>completed\<close> flag, so \<open>.withIndex("by_completed", q => q.eq("completed", c))\<close> ranges over
  the documents whose flag is \<open>c\<close>; inside that range \<open>.order("desc")\<close> is again creation
  time, then identifier.
\<close>

definition withIndex_by_completed :: "bool \<Rightarrow> todo list \<Rightarrow> todo list" where
  "withIndex_by_completed c ds = filter (\<lambda>d. completed d = c) ds"

section \<open>The mutations and queries\<close>

text \<open>
  A mutation returns what it returns or throws, paired with the database as it stands
  when the handler stops.
\<close>

definition createTodo ::
  "db \<Rightarrow> jsstring \<Rightarrow> jsstring option \<Rightarrow> bool \<Rightarrow> (error + todo) \<times> db" where
  "createTodo s a_title a_description a_completed =
     (if a_title = [] \<or> length (trim a_title) = 0 then (Inl TitleRequired, s)
      else if length a_title > 200 then (Inl TitleTooLong, s)
      else if (case a_description of None \<Rightarrow> False
               | Some x \<Rightarrow> x \<noteq> [] \<and> length x > 1000)
        then (Inl DescriptionTooLong, s)
      else
        (case db_insert s (trim a_title) (map_option trim a_description) a_completed of
           (todoId, s1) \<Rightarrow>
             (case db_get s1 todoId of
                None \<Rightarrow> (Inl FailedToCreate, s1)
              | Some createdTodo \<Rightarrow>
                  (Inr \<lparr>todo_id = todo_id createdTodo,
                        creationTime = creationTime createdTodo,
                        title = title createdTodo,
                        description = description createdTodo,
                        completed = completed createdTodo\<rparr>, s1))))"

text \<open>
  \<open>limit\<close> is a count of documents (the specification: a positive integer); absent, it
  is 100.
\<close>

definition listTodos :: "db \<Rightarrow> bool option \<Rightarrow> nat option \<Rightarrow> todo list" where
  "listTodos s a_completed a_limit =
     (let limit = (case a_limit of None \<Rightarrow> 100 | Some n \<Rightarrow> n) in
      case a_completed of
        Some c \<Rightarrow> take limit (order_desc (withIndex_by_completed c (todos s)))
      | None \<Rightarrow> take limit (order_desc (todos s)))"

definition getTodo :: "db \<Rightarrow> nat \<Rightarrow> todo option" where
  "getTodo s todoId = db_get s todoId"

definition updateTodo ::
  "db \<Rightarrow> nat \<Rightarrow> jsstring option \<Rightarrow> jsstring option \<Rightarrow> bool option \<Rightarrow> (error + todo) \<times> db" where
  "updateTodo s todoId a_title a_description a_completed =
     (case db_get s todoId of
        None \<Rightarrow> (Inl TodoNotFound, s)
      | Some existingTodo \<Rightarrow>
          if (case a_title of None \<Rightarrow> False | Some t \<Rightarrow> length (trim t) = 0)
            then (Inl TitleEmpty, s)
          else if (case a_title of None \<Rightarrow> False | Some t \<Rightarrow> length t > 200)
            then (Inl TitleTooLong, s)
          else if (case a_description of None \<Rightarrow> False
                   | Some x \<Rightarrow> x \<noteq> [] \<and> length x > 1000)
            then (Inl DescriptionTooLong, s)
          else
            (case db_patch s todoId
                    \<lparr>u_title = map_option trim a_title,
                     u_description = map_option trim a_description,
                     u_completed = a_completed\<rparr> of
               Inl e \<Rightarrow> (Inl e, s)
             | Inr s1 \<Rightarrow>
                 (case db_get s1 todoId of
                    None \<Rightarrow> (Inl FailedToUpdate, s1)
                  | Some updatedTodo \<Rightarrow>
                      (Inr \<lparr>todo_id = todo_id updatedTodo,
                            creationTime = creationTime updatedTodo,
                            title = title updatedTodo,
                            description = description updatedTodo,
                            completed = completed updatedTodo\<rparr>, s1))))"

definition deleteTodo :: "db \<Rightarrow> nat \<Rightarrow> (error + unit) \<times> db" where
  "deleteTodo s todoId =
     (case db_get s todoId of
        None \<Rightarrow> (Inl TodoNotFound, s)
      | Some existingTodo \<Rightarrow>
          (case db_delete s todoId of
             Inl e \<Rightarrow> (Inl e, s)
           | Inr s1 \<Rightarrow> (Inr (), s1)))"

definition toggleTodoCompleted :: "db \<Rightarrow> nat \<Rightarrow> (error + todo) \<times> db" where
  "toggleTodoCompleted s todoId =
     (case db_get s todoId of
        None \<Rightarrow> (Inl TodoNotFound, s)
      | Some existingTodo \<Rightarrow>
          (let newCompletedState = \<not> completed existingTodo in
           case db_patch s todoId
                  \<lparr>u_title = None, u_description = None,
                   u_completed = Some newCompletedState\<rparr> of
             Inl e \<Rightarrow> (Inl e, s)
           | Inr s1 \<Rightarrow>
               (case db_get s1 todoId of
                  None \<Rightarrow> (Inl FailedToUpdate, s1)
                | Some updatedTodo \<Rightarrow>
                    (Inr \<lparr>todo_id = todo_id updatedTodo,
                          creationTime = creationTime updatedTodo,
                          title = title updatedTodo,
                          description = description updatedTodo,
                          completed = completed updatedTodo\<rparr>, s1))))"

section \<open>Reachable databases\<close>

text \<open>
  The table starts empty, with the two counters anywhere, and changes only through the
  four mutations.
\<close>

inductive reachable :: "db \<Rightarrow> bool" where
  init: "reachable \<lparr>todos = [], next_id = n, clock = k\<rparr>"
| create: "reachable s \<Longrightarrow> reachable (snd (createTodo s t d c))"
| update: "reachable s \<Longrightarrow> reachable (snd (updateTodo s i t d c))"
| delete: "reachable s \<Longrightarrow> reachable (snd (deleteTodo s i))"
| toggle: "reachable s \<Longrightarrow> reachable (snd (toggleTodoCompleted s i))"

text \<open>
  A well-formed database: identifiers are unique and below the next one to be handed
  out, creation times are unique and before the clock. Every reachable database is
  well-formed (\<open>reachable_wf_db\<close> below).
\<close>

definition wf_db :: "db \<Rightarrow> bool" where
  "wf_db s \<longleftrightarrow>
     distinct (map todo_id (todos s)) \<and>
     distinct (map creationTime (todos s)) \<and>
     list_all (\<lambda>d. todo_id d < next_id s \<and> creationTime d < clock s) (todos s)"

text \<open>The bounds on a stored title, as a property of the whole table.\<close>

definition title_inv :: "db \<Rightarrow> bool" where
  "title_inv s \<longleftrightarrow> (\<forall>d \<in> set (todos s). trim (title d) \<noteq> [] \<and> length (title d) \<le> 200)"

text \<open>
  A database filled through the interface alone: one completed todo, then a hundred
  open ones.
\<close>

fun create_many :: "nat \<Rightarrow> db \<Rightarrow> db" where
  "create_many 0 s = s"
| "create_many (Suc n) s = snd (createTodo (create_many n s) [0x61] None False)"

definition crowded :: db where
  "crowded = create_many 100
     (snd (createTodo \<lparr>todos = [], next_id = 0, clock = 0\<rparr> [0x61] None True))"

section \<open>Facts about trimming\<close>

lemma trim_Nil: "trim [] = []"
  by (simp add: trim_def)

lemma length_trim_le: "length (trim s) \<le> length s"
  unfolding trim_def
  by (metis length_rev length_dropWhile_le le_trans)

lemma trim_idem: "trim (trim s) = trim s"
proof -
  define t where "t = dropWhile isWhiteSpace s"
  define u where "u = dropWhile isWhiteSpace (rev t)"
  have "rev t = takeWhile isWhiteSpace (rev t) @ u" by (simp add: u_def)
  then have t_eq: "t = rev u @ rev (takeWhile isWhiteSpace (rev t))"
    by (metis rev_append rev_rev_ident)
  have "dropWhile isWhiteSpace (rev u) = rev u"
  proof (cases "rev u = []")
    case True then show ?thesis by simp
  next
    case False
    then have "hd (rev u) = hd t" using t_eq by (metis hd_append2)
    moreover have "t \<noteq> []" using False t_eq by auto
    then have "\<not> isWhiteSpace (hd t)" unfolding t_def by (rule hd_dropWhile)
    ultimately show ?thesis using False by (cases "rev u") auto
  qed
  moreover have "dropWhile isWhiteSpace u = u" by (simp add: u_def)
  ultimately show ?thesis by (simp add: trim_def t_def[symmetric] u_def[symmetric])
qed

lemma trim_all_white:
  assumes "list_all isWhiteSpace s"
  shows "trim s = []"
proof -
  have blank: "dropWhile isWhiteSpace s = []"
    using assms by (induction s) simp_all
  show ?thesis unfolding trim_def blank by simp
qed

section \<open>Facts about the database primitives\<close>

lemma find_append:
  "find P (xs @ ys) = (case find P xs of None \<Rightarrow> find P ys | Some x \<Rightarrow> Some x)"
  by (induction xs) auto

lemma find_distinct_key:
  "distinct (map f xs) \<Longrightarrow> d \<in> set xs \<Longrightarrow> find (\<lambda>x. f x = f d) xs = Some d"
  by (induction xs) (auto simp: rev_image_eqI)

lemma db_get_member: "wf_db s \<Longrightarrow> d \<in> set (todos s) \<Longrightarrow> db_get s (todo_id d) = Some d"
  by (simp add: wf_db_def db_get_def find_distinct_key)

lemma wf_db_fresh: "wf_db s \<Longrightarrow> next_id s \<notin> todo_id ` set (todos s)"
  by (auto simp: wf_db_def list_all_iff)

lemma wf_db_clock: "wf_db s \<Longrightarrow> x \<in> set (todos s) \<Longrightarrow> creationTime x < clock s"
  by (auto simp: wf_db_def list_all_iff)

section \<open>Create\<close>

lemma createTodo_ok:
  assumes "next_id s \<notin> todo_id ` set (todos s)" "trim t \<noteq> []" "length t \<le> 200"
    "case d of None \<Rightarrow> True | Some x \<Rightarrow> length x \<le> 1000"
  shows "createTodo s t d c =
     (Inr \<lparr>todo_id = next_id s, creationTime = clock s, title = trim t,
           description = map_option trim d, completed = c\<rparr>,
      s\<lparr>todos := todos s @ [\<lparr>todo_id = next_id s, creationTime = clock s, title = trim t,
           description = map_option trim d, completed = c\<rparr>],
        next_id := Suc (next_id s), clock := Suc (clock s)\<rparr>)"
proof -
  have "t \<noteq> []" using assms(2) trim_Nil by auto
  moreover have "find (\<lambda>x. todo_id x = next_id s) (todos s) = None"
    using assms(1) by (force simp: find_None_iff)
  ultimately show ?thesis using assms(2-4)
    by (auto simp: createTodo_def db_insert_def db_get_def find_append split: option.splits)
qed

lemma createTodo_cases:
  "createTodo s t d c =
    (if trim t = [] then (Inl TitleRequired, s)
     else if 200 < length t then (Inl TitleTooLong, s)
     else if (case d of None \<Rightarrow> False | Some x \<Rightarrow> 1000 < length x)
       then (Inl DescriptionTooLong, s)
     else (fst (createTodo s t d c), snd (db_insert s (trim t) (map_option trim d) c)))"
  by (auto simp: createTodo_def trim_Nil db_insert_def split: option.splits)

lemma createTodo_readback:
  "fst (createTodo s t d c) \<noteq> Inl FailedToCreate"
  by (auto simp: createTodo_def db_insert_def db_get_def find_append find_None_iff
           split: option.splits)

text \<open>
  C1, as the code has it. The length limits are tested on the strings as given, before
  trimming. For a title that is not blank and has at most 200 code units, and a description
  that is absent or has at most 1000 code units, \<open>createTodo\<close> succeeds on every well-formed
  database: the returned document carries the trimmed title, the trimmed (or absent)
  description and the given flag; its identifier is borne by no document stored before,
  its creation time is later than that of every document stored before, and the document
  is appended to the table.
\<close>

theorem createTodo_succeeds:
  assumes "wf_db s" and "trim t \<noteq> []" and "length t \<le> 200"
    and "case d of None \<Rightarrow> True | Some x \<Rightarrow> length x \<le> 1000"
  shows "let r = \<lparr>todo_id = next_id s, creationTime = clock s, title = trim t,
                  description = map_option trim d, completed = c\<rparr>;
             s' = s\<lparr>todos := todos s @ [r], next_id := Suc (next_id s),
                    clock := Suc (clock s)\<rparr>
         in createTodo s t d c = (Inr r, s') \<and>
            todo_id r \<notin> todo_id ` set (todos s) \<and>
            (\<forall>x \<in> set (todos s). creationTime x < creationTime r) \<and>
            getTodo s' (todo_id r) = Some r"
proof -
  let ?r = "\<lparr>todo_id = next_id s, creationTime = clock s, title = trim t,
             description = map_option trim d, completed = c\<rparr>"
  have fresh: "next_id s \<notin> todo_id ` set (todos s)"
    using assms(1) by (rule wf_db_fresh)
  then have none: "find (\<lambda>x. todo_id x = next_id s) (todos s) = None"
    by (force simp: find_None_iff)
  have "createTodo s t d c =
      (Inr ?r, s\<lparr>todos := todos s @ [?r], next_id := Suc (next_id s),
                 clock := Suc (clock s)\<rparr>)"
    using fresh assms(2-4) by (rule createTodo_ok)
  moreover have "\<forall>x \<in> set (todos s). creationTime x < clock s"
    using assms(1) by (simp add: wf_db_clock)
  ultimately show ?thesis
    using fresh none by (simp add: getTodo_def db_get_def find_append)
qed

theorem createTodo_succeeds_witness:
  "wf_db \<lparr>todos = [], next_id = 0, clock = 0\<rparr> \<and>
   trim [0x20, 0x61, 0x62, 0x20] \<noteq> [] \<and>
   createTodo \<lparr>todos = [], next_id = 0, clock = 0\<rparr>
              [0x20, 0x61, 0x62, 0x20] (Some [0x63, 0x9]) True =
     (Inr \<lparr>todo_id = 0, creationTime = 0, title = [0x61, 0x62],
           description = Some [0x63], completed = True\<rparr>,
      \<lparr>todos = [\<lparr>todo_id = 0, creationTime = 0, title = [0x61, 0x62],
                 description = Some [0x63], completed = True\<rparr>],
       next_id = 1, clock = 1\<rparr>)"
  using createTodo_succeeds [of "\<lparr>todos = [], next_id = 0, clock = 0\<rparr>"
      "[0x20, 0x61, 0x62, 0x20]" "Some [0x63, 0x9]" True]
  by (simp add: wf_db_def trim_def isWhiteSpace_def Let_def)

text \<open>
  C1 as the specification words it (lengths counted after trimming) fails: a title of 200
  letters behind one space is 200 code units long once trimmed and is rejected, and so is
  a description of 1000 letters behind one space.
\<close>

theorem createTodo_trimmed_length_counterexample:
  "1 \<le> length (trim (0x20 # replicate 200 0x61)) \<and>
   length (trim (0x20 # replicate 200 0x61)) \<le> 200 \<and>
   createTodo \<lparr>todos = [], next_id = 0, clock = 0\<rparr> (0x20 # replicate 200 0x61) None False
     = (Inl TitleTooLong, \<lparr>todos = [], next_id = 0, clock = 0\<rparr>) \<and>
   length (trim (0x20 # replicate 1000 0x61)) \<le> 1000 \<and>
   createTodo \<lparr>todos = [], next_id = 0, clock = 0\<rparr> [0x61]
       (Some (0x20 # replicate 1000 0x61)) False
     = (Inl DescriptionTooLong, \<lparr>todos = [], next_id = 0, clock = 0\<rparr>)"
  by (simp add: createTodo_def trim_def isWhiteSpace_def)

text \<open>
  C2. \<open>createTodo\<close> stops at one of its two title checks exactly when the title is empty
  once trimmed or longer than 200 code units as given; both errors are invalid input.
  With no description there is no other way to fail. So a title of white space only is
  rejected, a title of 201 code units is rejected, and a title of 200 code units that is
  not blank is accepted.
\<close>

theorem createTodo_title_validation:
  "((fst (createTodo s t d c) = Inl TitleRequired \<or> fst (createTodo s t d c) = Inl TitleTooLong)
      \<longleftrightarrow> (trim t = [] \<or> 200 < length t)) \<and>
   failure_of TitleRequired = InvalidInput \<and> failure_of TitleTooLong = InvalidInput \<and>
   ((\<exists>e. fst (createTodo s t None c) = Inl e) \<longleftrightarrow> (trim t = [] \<or> 200 < length t)) \<and>
   (list_all isWhiteSpace t \<longrightarrow> createTodo s t d c = (Inl TitleRequired, s)) \<and>
   (length t = 201 \<longrightarrow> (\<exists>e. createTodo s t d c = (Inl e, s) \<and> failure_of e = InvalidInput)) \<and>
   (length t = 200 \<and> trim t \<noteq> [] \<longrightarrow> (\<exists>r. fst (createTodo s t None c) = Inr r))"
proof -
  have rb: "fst (createTodo s t None c) \<noteq> Inl FailedToCreate"
    by (rule createTodo_readback)
  have a: "(fst (createTodo s t d c) = Inl TitleRequired \<or>
            fst (createTodo s t d c) = Inl TitleTooLong)
      \<longleftrightarrow> (trim t = [] \<or> 200 < length t)"
    by (auto simp: createTodo_def trim_Nil db_insert_def split: option.splits prod.splits)
  have b: "(\<exists>e. fst (createTodo s t None c) = Inl e) \<longleftrightarrow> (trim t = [] \<or> 200 < length t)"
    by (auto simp: createTodo_def trim_Nil db_insert_def db_get_def find_append
             split: option.splits)
  have c: "list_all isWhiteSpace t \<longrightarrow> createTodo s t d c = (Inl TitleRequired, s)"
    by (simp add: createTodo_def trim_all_white)
  have d: "length t = 201 \<longrightarrow>
      (\<exists>e. createTodo s t d c = (Inl e, s) \<and> failure_of e = InvalidInput)"
    by (simp add: createTodo_def)
  have e: "length t = 200 \<and> trim t \<noteq> [] \<longrightarrow> (\<exists>r. fst (createTodo s t None c) = Inr r)"
    using b by (cases "fst (createTodo s t None c)") auto
  show ?thesis using a b c d e by simp
qed

theorem createTodo_title_validation_witness:
  "list_all isWhiteSpace [0x20, 0x9, 0xA0] \<and>
   createTodo \<lparr>todos = [], next_id = 0, clock = 0\<rparr> [0x20, 0x9, 0xA0] None False
     = (Inl TitleRequired, \<lparr>todos = [], next_id = 0, clock = 0\<rparr>) \<and>
   length (replicate 201 (0x61 :: 16 word)) = 201 \<and>
   (\<exists>e. createTodo \<lparr>todos = [], next_id = 0, clock = 0\<rparr> (replicate 201 0x61) None False
           = (Inl e, \<lparr>todos = [], next_id = 0, clock = 0\<rparr>) \<and> failure_of e = InvalidInput) \<and>
   length (replicate 200 (0x61 :: 16 word)) = 200 \<and> trim (replicate 200 0x61) \<noteq> [] \<and>
   (\<exists>r. fst (createTodo \<lparr>todos = [], next_id = 0, clock = 0\<rparr> (replicate 200 0x61) None False)
           = Inr r)"
  using createTodo_title_validation [of "\<lparr>todos = [], next_id = 0, clock = 0\<rparr>"
      "[0x20, 0x9, 0xA0]" None False]
    createTodo_title_validation [of "\<lparr>todos = [], next_id = 0, clock = 0\<rparr>"
      "replicate 201 0x61" None False]
    createTodo_title_validation [of "\<lparr>todos = [], next_id = 0, clock = 0\<rparr>"
      "replicate 200 0x61" None False]
  by (simp add: trim_def isWhiteSpace_def)

section \<open>Update, toggle and delete, case by case\<close>

lemma apply_patch_sys [simp]:
  "todo_id (apply_patch u d) = todo_id d" "creationTime (apply_patch u d) = creationTime d"
  by (simp_all add: apply_patch_def)

lemma find_map_patch:
  assumes "\<And>x. todo_id (f x) = todo_id x"
  shows "find (\<lambda>d. todo_id d = j) (map (\<lambda>d. if todo_id d = i then f d else d) xs) =
         (if j = i then map_option f (find (\<lambda>d. todo_id d = i) xs)
          else find (\<lambda>d. todo_id d = j) xs)"
  using assms by (induction xs) auto

lemma db_patch_cases:
  "db_patch s i u =
     (case db_get s i of None \<Rightarrow> Inl NoSuchDocument
      | Some e \<Rightarrow> Inr (s\<lparr>todos := map (\<lambda>d. if todo_id d = i then apply_patch u d else d) (todos s)\<rparr>))"
  by (simp add: db_patch_def split: option.splits)

lemma db_get_patched:
  "db_get (s\<lparr>todos := map (\<lambda>d. if todo_id d = i then apply_patch u d else d) (todos s)\<rparr>) j =
     (if j = i then map_option (apply_patch u) (db_get s i) else db_get s j)"
  by (simp add: db_get_def find_map_patch)

lemma updateTodo_cases:
  "updateTodo s i t d c =
     (case db_get s i of
        None \<Rightarrow> (Inl TodoNotFound, s)
      | Some e \<Rightarrow>
          if (case t of None \<Rightarrow> False | Some x \<Rightarrow> trim x = []) then (Inl TitleEmpty, s)
          else if (case t of None \<Rightarrow> False | Some x \<Rightarrow> 200 < length x) then (Inl TitleTooLong, s)
          else if (case d of None \<Rightarrow> False | Some x \<Rightarrow> 1000 < length x)
            then (Inl DescriptionTooLong, s)
          else (Inr (apply_patch \<lparr>u_title = map_option trim t,
                        u_description = map_option trim d, u_completed = c\<rparr> e),
                s\<lparr>todos := map (\<lambda>x. if todo_id x = i
                       then apply_patch \<lparr>u_title = map_option trim t,
                              u_description = map_option trim d, u_completed = c\<rparr> x
                       else x) (todos s)\<rparr>))"
  by (auto simp: updateTodo_def db_patch_cases db_get_patched split: option.splits)

lemma toggleTodoCompleted_cases:
  "toggleTodoCompleted s i =
     (case db_get s i of
        None \<Rightarrow> (Inl TodoNotFound, s)
      | Some e \<Rightarrow>
          (Inr (e\<lparr>completed := \<not> completed e\<rparr>),
           s\<lparr>todos := map (\<lambda>x. if todo_id x = i then x\<lparr>completed := \<not> completed e\<rparr> else x)
                         (todos s)\<rparr>))"
  by (auto simp: toggleTodoCompleted_def db_patch_cases db_get_patched apply_patch_def Let_def
        split: option.splits)

lemma deleteTodo_cases:
  "deleteTodo s i =
     (case db_get s i of
        None \<Rightarrow> (Inl TodoNotFound, s)
      | Some e \<Rightarrow> (Inr (), s\<lparr>todos := filter (\<lambda>x. todo_id x \<noteq> i) (todos s)\<rparr>))"
  by (auto simp: deleteTodo_def db_delete_def split: option.splits)

lemma db_get_deleted:
  "db_get (s\<lparr>todos := filter (\<lambda>x. todo_id x \<noteq> i) (todos s)\<rparr>) j =
     (if j = i then None else db_get s j)"
proof -
  have "find (\<lambda>d. todo_id d = j) (filter (\<lambda>x. todo_id x \<noteq> i) xs) =
        (if j = i then None else find (\<lambda>d. todo_id d = j) xs)" for xs :: "todo list"
    by (induction xs) auto
  then show ?thesis by (simp add: db_get_def)
qed

lemma wf_db_unique:
  assumes "wf_db s" "db_get s i = Some e" "x \<in> set (todos s)" "todo_id x = i"
  shows "x = e"
  using assms db_get_member [of s x] by simp

lemma db_get_flip:
  "db_get (s\<lparr>todos := map (\<lambda>x. if todo_id x = i then x\<lparr>completed := b\<rparr> else x) (todos s)\<rparr>) j =
     (if j = i then map_option (\<lambda>x. x\<lparr>completed := b\<rparr>) (db_get s i) else db_get s j)"
proof -
  have "find (\<lambda>d. todo_id d = j)
          (map (\<lambda>x. if todo_id x = i then x\<lparr>completed := b\<rparr> else x) xs) =
        (if j = i then map_option (\<lambda>x. x\<lparr>completed := b\<rparr>) (find (\<lambda>d. todo_id d = i) xs)
         else find (\<lambda>d. todo_id d = j) xs)" for xs :: "todo list"
    by (rule find_map_patch) simp
  then show ?thesis by (simp add: db_get_def)
qed

text \<open>
  C5. A failing \<open>updateTodo\<close> leaves the database as it was: with no document under the
  identifier it throws "Todo not found"; with an empty title for an existing document it
  throws "Title cannot be empty"; and whatever the error, the database the handler stops
  on is the one it started from, because every check comes before the patch and the
  read after the patch cannot fail.
\<close>

theorem updateTodo_atomic:
  "(getTodo s i = None \<longrightarrow> updateTodo s i t d c = (Inl TodoNotFound, s)) \<and>
   (getTodo s i \<noteq> None \<longrightarrow> updateTodo s i (Some []) d c = (Inl TitleEmpty, s)) \<and>
   (\<forall>e. fst (updateTodo s i t d c) = Inl e \<longrightarrow> snd (updateTodo s i t d c) = s) \<and>
   failure_of TodoNotFound = NotFound \<and> failure_of TitleEmpty = InvalidInput"
  by (auto simp: updateTodo_cases getTodo_def trim_Nil split: option.splits)

theorem updateTodo_atomic_witness:
  "getTodo \<lparr>todos = [\<lparr>todo_id = 0, creationTime = 0, title = [0x61], description = None,
                       completed = False\<rparr>], next_id = 1, clock = 1\<rparr> 7 = None \<and>
   updateTodo \<lparr>todos = [\<lparr>todo_id = 0, creationTime = 0, title = [0x61], description = None,
                       completed = False\<rparr>], next_id = 1, clock = 1\<rparr> 7 (Some [0x62]) None None
     = (Inl TodoNotFound,
        \<lparr>todos = [\<lparr>todo_id = 0, creationTime = 0, title = [0x61], description = None,
                       completed = False\<rparr>], next_id = 1, clock = 1\<rparr>) \<and>
   getTodo \<lparr>todos = [\<lparr>todo_id = 0, creationTime = 0, title = [0x61], description = None,
                       completed = False\<rparr>], next_id = 1, clock = 1\<rparr> 0 \<noteq> None \<and>
   updateTodo \<lparr>todos = [\<lparr>todo_id = 0, creationTime = 0, title = [0x61], description = None,
                       completed = False\<rparr>], next_id = 1, clock = 1\<rparr> 0 (Some []) None (Some True)
     = (Inl TitleEmpty,
        \<lparr>todos = [\<lparr>todo_id = 0, creationTime = 0, title = [0x61], description = None,
                       completed = False\<rparr>], next_id = 1, clock = 1\<rparr>)"
  using updateTodo_atomic [of "\<lparr>todos = [\<lparr>todo_id = 0, creationTime = 0, title = [0x61],
          description = None, completed = False\<rparr>], next_id = 1, clock = 1\<rparr>" 7 "Some [0x62]" None None]
    updateTodo_atomic [of "\<lparr>todos = [\<lparr>todo_id = 0, creationTime = 0, title = [0x61],
          description = None, completed = False\<rparr>], next_id = 1, clock = 1\<rparr>" 0 "Some []" None "Some True"]
  by (simp add: getTodo_def db_get_def)

text \<open>
  C6. For an existing document and supplied fields that pass the checks, \<open>updateTodo\<close>
  returns the document with exactly the supplied fields replaced (title and description
  trimmed) and every omitted field as stored; identifier and creation time are kept; the
  returned document is the one now stored under the identifier, and every other
  identifier reads as before.
\<close>

theorem updateTodo_partial:
  assumes "getTodo s i = Some e"
    and "case t of None \<Rightarrow> True | Some x \<Rightarrow> trim x \<noteq> [] \<and> length x \<le> 200"
    and "case d of None \<Rightarrow> True | Some x \<Rightarrow> length x \<le> 1000"
  shows "let r = e\<lparr>title := (case t of None \<Rightarrow> title e | Some x \<Rightarrow> trim x),
                   description := (case d of None \<Rightarrow> description e | Some x \<Rightarrow> Some (trim x)),
                   completed := (case c of None \<Rightarrow> completed e | Some b \<Rightarrow> b)\<rparr>;
             s' = snd (updateTodo s i t d c)
         in fst (updateTodo s i t d c) = Inr r \<and>
            todo_id r = todo_id e \<and> creationTime r = creationTime e \<and>
            getTodo s' i = Some r \<and>
            (\<forall>j. j \<noteq> i \<longrightarrow> getTodo s' j = getTodo s j) \<and>
            map todo_id (todos s') = map todo_id (todos s) \<and>
            map creationTime (todos s') = map creationTime (todos s)"
proof -
  let ?u = "\<lparr>u_title = map_option trim t, u_description = map_option trim d, u_completed = c\<rparr>"
  let ?s' = "s\<lparr>todos := map (\<lambda>x. if todo_id x = i then apply_patch ?u x else x) (todos s)\<rparr>"
  have get: "db_get s i = Some e" using assms(1) by (simp add: getTodo_def)
  have upd: "updateTodo s i t d c = (Inr (apply_patch ?u e), ?s')"
    using get assms(2,3) by (auto simp: updateTodo_cases split: option.splits)
  have r: "apply_patch ?u e =
      e\<lparr>title := (case t of None \<Rightarrow> title e | Some x \<Rightarrow> trim x),
        description := (case d of None \<Rightarrow> description e | Some x \<Rightarrow> Some (trim x)),
        completed := (case c of None \<Rightarrow> completed e | Some b \<Rightarrow> b)\<rparr>"
    by (simp add: apply_patch_def split: option.splits)
  have ids: "map todo_id (todos ?s') = map todo_id (todos s)"
    by (simp add: comp_def if_distrib cong: if_cong)
  have cts: "map creationTime (todos ?s') = map creationTime (todos s)"
    by (simp add: comp_def if_distrib cong: if_cong)
  have frame: "\<forall>j. j \<noteq> i \<longrightarrow> getTodo ?s' j = getTodo s j"
    by (simp add: getTodo_def db_get_patched)
  have here: "getTodo ?s' i = Some (apply_patch ?u e)"
    using get by (simp add: getTodo_def db_get_patched)
  show ?thesis
    unfolding Let_def upd fst_conv snd_conv r[symmetric]
    using ids cts frame here by simp
qed

theorem updateTodo_partial_witness:
  "getTodo \<lparr>todos = [\<lparr>todo_id = 0, creationTime = 0, title = [0x61], description = Some [0x62],
                       completed = False\<rparr>], next_id = 1, clock = 1\<rparr> 0
     = Some \<lparr>todo_id = 0, creationTime = 0, title = [0x61], description = Some [0x62],
             completed = False\<rparr> \<and>
   trim [0x20, 0x7A] \<noteq> [] \<and>
   updateTodo \<lparr>todos = [\<lparr>todo_id = 0, creationTime = 0, title = [0x61],
       description = Some [0x62], completed = False\<rparr>], next_id = 1, clock = 1\<rparr>
       0 (Some [0x20, 0x7A]) None None
     = (Inr \<lparr>todo_id = 0, creationTime = 0, title = [0x7A], description = Some [0x62],
             completed = False\<rparr>,
        \<lparr>todos = [\<lparr>todo_id = 0, creationTime = 0, title = [0x7A],
             description = Some [0x62], completed = False\<rparr>], next_id = 1, clock = 1\<rparr>)"
  using updateTodo_partial [of "\<lparr>todos = [\<lparr>todo_id = 0, creationTime = 0, title = [0x61],
      description = Some [0x62], completed = False\<rparr>], next_id = 1, clock = 1\<rparr>" 0
      "\<lparr>todo_id = 0, creationTime = 0, title = [0x61], description = Some [0x62],
             completed = False\<rparr>" "Some [0x20, 0x7A]" None None]
  by (simp add: getTodo_def db_get_def updateTodo_cases trim_def isWhiteSpace_def
        apply_patch_def)

text \<open>
  C7. \<open>deleteTodo\<close> on an identifier with no document throws "Todo not found". On an
  existing one it drops the document from the table and returns null; after that
  \<open>getTodo\<close> on the identifier returns null, a second \<open>deleteTodo\<close> throws
  "Todo not found", and every other identifier reads as before.
\<close>

theorem deleteTodo_removes:
  "(getTodo s i = None \<longrightarrow> deleteTodo s i = (Inl TodoNotFound, s)) \<and>
   (getTodo s i \<noteq> None \<longrightarrow>
      (let s' = s\<lparr>todos := filter (\<lambda>x. todo_id x \<noteq> i) (todos s)\<rparr>
       in deleteTodo s i = (Inr (), s') \<and>
          getTodo s' i = None \<and>
          deleteTodo s' i = (Inl TodoNotFound, s') \<and>
          (\<forall>j. j \<noteq> i \<longrightarrow> getTodo s' j = getTodo s j))) \<and>
   failure_of TodoNotFound = NotFound"
  by (auto simp: deleteTodo_cases getTodo_def db_get_deleted Let_def split: option.splits)

theorem deleteTodo_removes_witness:
  "getTodo \<lparr>todos = [\<lparr>todo_id = 0, creationTime = 0, title = [0x61], description = None,
                       completed = False\<rparr>], next_id = 1, clock = 1\<rparr> 0 \<noteq> None \<and>
   deleteTodo \<lparr>todos = [\<lparr>todo_id = 0, creationTime = 0, title = [0x61], description = None,
                       completed = False\<rparr>], next_id = 1, clock = 1\<rparr> 0
     = (Inr (), \<lparr>todos = [], next_id = 1, clock = 1\<rparr>) \<and>
   getTodo \<lparr>todos = [], next_id = 1, clock = 1\<rparr> 0 = None \<and>
   deleteTodo \<lparr>todos = [], next_id = 1, clock = 1\<rparr> 0
     = (Inl TodoNotFound, \<lparr>todos = [], next_id = 1, clock = 1\<rparr>)"
  using deleteTodo_removes [of "\<lparr>todos = [\<lparr>todo_id = 0, creationTime = 0, title = [0x61],
          description = None, completed = False\<rparr>], next_id = 1, clock = 1\<rparr>" 0]
    deleteTodo_removes [of "\<lparr>todos = [], next_id = 1, clock = 1\<rparr>" 0]
  by (simp add: getTodo_def db_get_def)

text \<open>
  C8. \<open>toggleTodoCompleted\<close> on an existing document stores and returns the document with
  its flag negated and touches no other identifier; a second call returns the original
  document again, and on a well-formed database the whole database is back where it was.
\<close>

theorem toggleTodoCompleted_involution:
  assumes "getTodo s i = Some e"
  shows "let r = e\<lparr>completed := \<not> completed e\<rparr>;
             s' = snd (toggleTodoCompleted s i);
             s'' = snd (toggleTodoCompleted s' i)
         in fst (toggleTodoCompleted s i) = Inr r \<and>
            getTodo s' i = Some r \<and>
            (\<forall>j. j \<noteq> i \<longrightarrow> getTodo s' j = getTodo s j) \<and>
            fst (toggleTodoCompleted s' i) = Inr e \<and>
            getTodo s'' i = Some e \<and>
            (wf_db s \<longrightarrow> s'' = s)"
proof -
  let ?r = "e\<lparr>completed := \<not> completed e\<rparr>"
  let ?f = "\<lambda>x. if todo_id x = i then x\<lparr>completed := \<not> completed e\<rparr> else x"
  let ?g = "\<lambda>x. if todo_id x = i then x\<lparr>completed := \<not> completed ?r\<rparr> else x"
  let ?s' = "s\<lparr>todos := map ?f (todos s)\<rparr>"
  let ?s'' = "?s'\<lparr>todos := map ?g (todos ?s')\<rparr>"
  have get: "db_get s i = Some e" using assms by (simp add: getTodo_def)
  have first: "toggleTodoCompleted s i = (Inr ?r, ?s')"
    using get by (simp add: toggleTodoCompleted_cases)
  have get': "db_get ?s' j = (if j = i then Some ?r else db_get s j)" for j
    using get by (simp add: db_get_flip)
  have second: "toggleTodoCompleted ?s' i = (Inr e, ?s'')"
    by (simp add: toggleTodoCompleted_cases get')
  have get'': "db_get ?s'' i = Some e"
    unfolding db_get_flip using get by simp
  have roundtrip: "?s'' = s" if "wf_db s"
  proof -
    have uniq: "x = e" if "x \<in> set (todos s)" "todo_id x = i" for x
      using \<open>wf_db s\<close> get that by (rule wf_db_unique)
    have "map (?g \<circ> ?f) (todos s) = todos s"
      by (rule map_idI) (auto dest: uniq)
    then show ?thesis by simp
  qed
  show ?thesis
    unfolding Let_def first second fst_conv snd_conv
    using get' get'' roundtrip by (simp add: getTodo_def)
qed

theorem toggleTodoCompleted_involution_witness:
  "getTodo \<lparr>todos = [\<lparr>todo_id = 0, creationTime = 0, title = [0x61], description = None,
                       completed = False\<rparr>], next_id = 1, clock = 1\<rparr> 0
     = Some \<lparr>todo_id = 0, creationTime = 0, title = [0x61], description = None,
             completed = False\<rparr> \<and>
   wf_db \<lparr>todos = [\<lparr>todo_id = 0, creationTime = 0, title = [0x61], description = None,
                       completed = False\<rparr>], next_id = 1, clock = 1\<rparr> \<and>
   toggleTodoCompleted \<lparr>todos = [\<lparr>todo_id = 0, creationTime = 0, title = [0x61],
       description = None, completed = False\<rparr>], next_id = 1, clock = 1\<rparr> 0
     = (Inr \<lparr>todo_id = 0, creationTime = 0, title = [0x61], description = None,
             completed = True\<rparr>,
        \<lparr>todos = [\<lparr>todo_id = 0, creationTime = 0, title = [0x61], description = None,
                       completed = True\<rparr>], next_id = 1, clock = 1\<rparr>) \<and>
   toggleTodoCompleted \<lparr>todos = [\<lparr>todo_id = 0, creationTime = 0, title = [0x61],
       description = None, completed = True\<rparr>], next_id = 1, clock = 1\<rparr> 0
     = (Inr \<lparr>todo_id = 0, creationTime = 0, title = [0x61], description = None,
             completed = False\<rparr>,
        \<lparr>todos = [\<lparr>todo_id = 0, creationTime = 0, title = [0x61], description = None,
                       completed = False\<rparr>], next_id = 1, clock = 1\<rparr>)"
  using toggleTodoCompleted_involution [of "\<lparr>todos = [\<lparr>todo_id = 0, creationTime = 0,
      title = [0x61], description = None, completed = False\<rparr>], next_id = 1, clock = 1\<rparr>" 0
      "\<lparr>todo_id = 0, creationTime = 0, title = [0x61], description = None,
             completed = False\<rparr>"]
  by (simp add: getTodo_def db_get_def wf_db_def toggleTodoCompleted_cases)

section \<open>Invariants of the reachable databases\<close>

lemma trimmed_title_ok:
  assumes "trim t \<noteq> []" "length t \<le> 200"
  shows "trim (trim t) \<noteq> [] \<and> length (trim t) \<le> 200"
  using assms length_trim_le [of t] by (simp add: trim_idem)

lemma title_inv_insert:
  assumes "title_inv s" "trim t \<noteq> []" "length t \<le> 200"
  shows "title_inv (s\<lparr>todos := todos s @ [\<lparr>todo_id = n, creationTime = k, title = trim t,
            description = d, completed = c\<rparr>], next_id := n', clock := k'\<rparr>)"
  using assms trimmed_title_ok [of t] by (simp add: title_inv_def)

lemma title_inv_patch:
  assumes "title_inv s" "case u_title u of None \<Rightarrow> True | Some x \<Rightarrow> trim x \<noteq> [] \<and> length x \<le> 200"
  shows "title_inv (s\<lparr>todos := map (\<lambda>x. if todo_id x = i then apply_patch u x else x) (todos s)\<rparr>)"
  using assms by (auto simp: title_inv_def apply_patch_def split: option.splits)

lemma title_inv_filter:
  "title_inv s \<Longrightarrow> title_inv (s\<lparr>todos := filter P (todos s)\<rparr>)"
  by (simp add: title_inv_def)

lemma wf_db_insert:
  assumes "wf_db s"
  shows "wf_db (s\<lparr>todos := todos s @ [\<lparr>todo_id = next_id s, creationTime = clock s, title = t,
            description = d, completed = c\<rparr>],
          next_id := Suc (next_id s), clock := Suc (clock s)\<rparr>)"
  using assms by (auto simp: wf_db_def list_all_iff less_SucI)

lemma map_sys_patch:
  "map todo_id (map (\<lambda>x. if todo_id x = i then apply_patch u x else x) xs) = map todo_id xs"
  "map creationTime (map (\<lambda>x. if todo_id x = i then apply_patch u x else x) xs)
     = map creationTime xs"
  by (induction xs) auto

lemma wf_db_patch:
  assumes "wf_db s"
  shows "wf_db (s\<lparr>todos := map (\<lambda>x. if todo_id x = i then apply_patch u x else x) (todos s)\<rparr>)"
proof -
  let ?xs = "map (\<lambda>x. if todo_id x = i then apply_patch u x else x) (todos s)"
  have "list_all (\<lambda>d. todo_id d < next_id s \<and> creationTime d < clock s) ?xs"
    using assms by (auto simp: wf_db_def list_all_iff)
  then show ?thesis
    using assms by (simp add: wf_db_def map_sys_patch del: map_map)
qed

lemma wf_db_filter: "wf_db s \<Longrightarrow> wf_db (s\<lparr>todos := filter P (todos s)\<rparr>)"
  by (auto simp: wf_db_def list_all_iff distinct_map_filter)

lemma toggle_as_patch:
  "(\<lambda>x. if todo_id x = i then x\<lparr>completed := b\<rparr> else x) =
   (\<lambda>x. if todo_id x = i
         then apply_patch \<lparr>u_title = None, u_description = None, u_completed = Some b\<rparr> x
         else x)"
  by (auto simp: apply_patch_def)

lemma title_inv_createTodo: "title_inv s \<Longrightarrow> title_inv (snd (createTodo s t d c))"
  by (subst createTodo_cases) (simp add: db_insert_def title_inv_insert)

lemma title_inv_updateTodo: "title_inv s \<Longrightarrow> title_inv (snd (updateTodo s i t d c))"
proof (cases t)
  case None
  then show "title_inv s \<Longrightarrow> title_inv (snd (updateTodo s i t d c))"
    by (auto simp: updateTodo_cases title_inv_patch split: option.splits)
next
  case (Some a)
  then show "title_inv s \<Longrightarrow> title_inv (snd (updateTodo s i t d c))"
    using trimmed_title_ok [of a]
    by (auto simp: updateTodo_cases title_inv_patch not_less split: option.splits)
qed

lemma title_inv_toggleTodoCompleted:
  "title_inv s \<Longrightarrow> title_inv (snd (toggleTodoCompleted s i))"
  by (auto simp: toggleTodoCompleted_cases toggle_as_patch title_inv_patch
           split: option.splits)

lemma title_inv_deleteTodo: "title_inv s \<Longrightarrow> title_inv (snd (deleteTodo s i))"
  by (auto simp: deleteTodo_cases title_inv_filter split: option.splits)

lemma wf_db_createTodo: "wf_db s \<Longrightarrow> wf_db (snd (createTodo s t d c))"
  by (subst createTodo_cases) (simp add: db_insert_def wf_db_insert)

lemma wf_db_updateTodo: "wf_db s \<Longrightarrow> wf_db (snd (updateTodo s i t d c))"
  by (auto simp: updateTodo_cases wf_db_patch split: option.splits)

lemma wf_db_toggleTodoCompleted: "wf_db s \<Longrightarrow> wf_db (snd (toggleTodoCompleted s i))"
  by (auto simp: toggleTodoCompleted_cases toggle_as_patch wf_db_patch split: option.splits)

lemma wf_db_deleteTodo: "wf_db s \<Longrightarrow> wf_db (snd (deleteTodo s i))"
  by (auto simp: deleteTodo_cases wf_db_filter split: option.splits)

lemma reachable_wf_db: "reachable s \<Longrightarrow> wf_db s"
proof (induction rule: reachable.induct)
  case (init n k)
  show ?case by (simp add: wf_db_def)
qed (simp_all add: wf_db_createTodo wf_db_updateTodo wf_db_toggleTodoCompleted wf_db_deleteTodo)

text \<open>
  C9. In every database reachable from the empty table through \<open>createTodo\<close>,
  \<open>updateTodo\<close>, \<open>toggleTodoCompleted\<close> and \<open>deleteTodo\<close>, the title of every stored
  document is non-empty once trimmed and at most 200 code units long.
\<close>

theorem reachable_title_bounds:
  assumes "reachable s" and "d \<in> set (todos s)"
  shows "trim (title d) \<noteq> [] \<and> length (title d) \<le> 200"
proof -
  have "title_inv s"
    using assms(1)
  proof (induction rule: reachable.induct)
    case (init n k)
    show ?case by (simp add: title_inv_def)
  qed (simp_all add: title_inv_createTodo title_inv_updateTodo
         title_inv_toggleTodoCompleted title_inv_deleteTodo)
  then show ?thesis using assms(2) by (simp add: title_inv_def)
qed

theorem reachable_title_bounds_witness:
  "reachable \<lparr>todos = [\<lparr>todo_id = 0, creationTime = 0, title = [0x61, 0x62],
       description = None, completed = False\<rparr>], next_id = 1, clock = 1\<rparr> \<and>
   trim [0x61, 0x62] \<noteq> [] \<and> length [0x61 :: 16 word, 0x62] \<le> 200"
proof -
  have "reachable (snd (createTodo \<lparr>todos = [], next_id = 0, clock = 0\<rparr>
                         [0x20, 0x61, 0x62] None False))"
    by (rule reachable.create) (rule reachable.init)
  then have r: "reachable \<lparr>todos = [\<lparr>todo_id = 0, creationTime = 0, title = [0x61, 0x62],
       description = None, completed = False\<rparr>], next_id = 1, clock = 1\<rparr>"
    by (simp add: createTodo_def db_insert_def db_get_def trim_def isWhiteSpace_def)
  show ?thesis
    using r reachable_title_bounds [OF r, of "\<lparr>todo_id = 0, creationTime = 0,
      title = [0x61, 0x62], description = None, completed = False\<rparr>"]
    by simp
qed

section \<open>List\<close>

lemma set_order_desc: "set (order_desc xs) = set xs"
  by (simp add: order_desc_def)

lemma length_order_desc: "length (order_desc xs) = length xs"
  by (simp add: order_desc_def)

lemma sorted_wrt_key_strict:
  "sorted_wrt (\<lambda>a b. (creationTime a, todo_id a) \<le> (creationTime b, todo_id b)) xs \<Longrightarrow>
   distinct (map creationTime xs) \<Longrightarrow>
   sorted_wrt (\<lambda>a b. creationTime a < creationTime b) xs"
  by (induction xs) (auto, force)

lemma distinct_map_sort_key:
  "distinct (map g (sort_key f xs)) = distinct (map g xs)"
proof -
  have "mset (map g (sort_key f xs)) = mset (map g xs)" by simp
  then show ?thesis by (rule mset_eq_imp_distinct_iff)
qed

lemma order_desc_strict:
  assumes "distinct (map creationTime xs)"
  shows "sorted_wrt (\<lambda>a b. creationTime b < creationTime a) (order_desc xs)"
proof -
  let ?k = "\<lambda>d. (creationTime d, todo_id d)"
  have "sorted (map ?k (sort_key ?k xs))" by (rule sorted_sort_key)
  then have "sorted_wrt (\<lambda>a b. ?k a \<le> ?k b) (sort_key ?k xs)"
    by (simp add: sorted_map)
  moreover have "distinct (map creationTime (sort_key ?k xs))"
    using assms by (simp only: distinct_map_sort_key)
  ultimately have "sorted_wrt (\<lambda>a b. creationTime a < creationTime b) (sort_key ?k xs)"
    by (rule sorted_wrt_key_strict)
  then show ?thesis by (simp add: order_desc_def sorted_wrt_rev)
qed

lemma take_newest:
  assumes "sorted_wrt (\<lambda>a b. creationTime b < creationTime a) ys"
    and "d \<in> set ys" and "d \<notin> set (take n ys)" and "r \<in> set (take n ys)"
  shows "creationTime d < creationTime r"
proof -
  have "set ys = set (take n ys) \<union> set (drop n ys)"
    by (metis append_take_drop_id set_append)
  then have "d \<in> set (drop n ys)" using assms(2,3) by blast
  moreover have "sorted_wrt (\<lambda>a b. creationTime b < creationTime a) (take n ys @ drop n ys)"
    using assms(1) by simp
  ultimately show ?thesis
    using assms(4) unfolding sorted_wrt_append by blast
qed

lemma listTodos_eq:
  "listTodos s f lim =
     take (case lim of None \<Rightarrow> 100 | Some n \<Rightarrow> n)
       (order_desc (case f of None \<Rightarrow> todos s
                    | Some c \<Rightarrow> filter (\<lambda>d. completed d = c) (todos s)))"
  by (simp add: listTodos_def withIndex_by_completed_def split: option.splits)

lemma wf_db_distinct_times:
  "wf_db s \<Longrightarrow> distinct (map creationTime (filter P (todos s)))"
  by (simp add: wf_db_def distinct_map_filter)

text \<open>
  C3. On a well-formed database (every reachable one is), \<open>listTodos\<close> returns at most
  \<open>limit\<close> documents, 100 when no limit is given, in strictly descending order of
  creation time. With a filter every returned document carries the filter's flag; with
  no filter every stored document is eligible, whatever its flag. The result is the
  newest part of the eligible documents: its length is the smaller of the limit and
  their number, and every eligible document left out is older than every one returned.
\<close>

theorem listTodos_newest_first:
  assumes "wf_db s"
  shows "let limit = (case lim of None \<Rightarrow> 100 | Some n \<Rightarrow> n);
             eligible = (case f of None \<Rightarrow> todos s
                         | Some c \<Rightarrow> filter (\<lambda>d. completed d = c) (todos s));
             res = listTodos s f lim
         in length res \<le> limit \<and>
            sorted_wrt (\<lambda>a b. creationTime b < creationTime a) res \<and>
            (\<forall>c. f = Some c \<longrightarrow> (\<forall>r \<in> set res. completed r = c)) \<and>
            set res \<subseteq> set eligible \<and>
            length res = min limit (length eligible) \<and>
            (\<forall>d \<in> set eligible - set res. \<forall>r \<in> set res. creationTime d < creationTime r)"
proof -
  define limit where "limit = (case lim of None \<Rightarrow> 100 | Some n \<Rightarrow> (n::nat))"
  define eligible where "eligible = (case f of None \<Rightarrow> todos s
                         | Some c \<Rightarrow> filter (\<lambda>d. completed d = c) (todos s))"
  have res: "listTodos s f lim = take limit (order_desc eligible)"
    by (simp add: listTodos_eq limit_def eligible_def)
  have "distinct (map creationTime eligible)"
    using assms wf_db_distinct_times [of s "\<lambda>d. True"] wf_db_distinct_times [of s]
    by (cases f) (simp_all add: eligible_def)
  then have srt: "sorted_wrt (\<lambda>a b. creationTime b < creationTime a) (order_desc eligible)"
    by (rule order_desc_strict)
  have 1: "length (take limit (order_desc eligible)) \<le> limit" by simp
  have 2: "sorted_wrt (\<lambda>a b. creationTime b < creationTime a) (take limit (order_desc eligible))"
    using srt by (rule sorted_wrt_take)
  have 4: "set (take limit (order_desc eligible)) \<subseteq> set eligible"
    using set_take_subset [of limit "order_desc eligible"] by (simp add: set_order_desc)
  have 3: "\<forall>c. f = Some c \<longrightarrow> (\<forall>r \<in> set (take limit (order_desc eligible)). completed r = c)"
    using 4 by (auto simp: eligible_def)
  have 5: "length (take limit (order_desc eligible)) = min limit (length eligible)"
    by (simp add: length_order_desc min.commute)
  have 6: "\<forall>d \<in> set eligible - set (take limit (order_desc eligible)).
             \<forall>r \<in> set (take limit (order_desc eligible)). creationTime d < creationTime r"
    using take_newest [OF srt] by (auto simp: set_order_desc)
  show ?thesis
    unfolding Let_def res limit_def [symmetric] eligible_def [symmetric]
    using 1 2 3 4 5 6 by blast
qed

theorem listTodos_newest_first_witness:
  "wf_db \<lparr>todos =
       [\<lparr>todo_id = 0, creationTime = 0, title = [0x61], description = None, completed = False\<rparr>,
        \<lparr>todo_id = 1, creationTime = 1, title = [0x62], description = None, completed = True\<rparr>,
        \<lparr>todo_id = 2, creationTime = 2, title = [0x63], description = None, completed = False\<rparr>],
       next_id = 3, clock = 3\<rparr> \<and>
   listTodos \<lparr>todos =
       [\<lparr>todo_id = 0, creationTime = 0, title = [0x61], description = None, completed = False\<rparr>,
        \<lparr>todo_id = 1, creationTime = 1, title = [0x62], description = None, completed = True\<rparr>,
        \<lparr>todo_id = 2, creationTime = 2, title = [0x63], description = None, completed = False\<rparr>],
       next_id = 3, clock = 3\<rparr> (Some False) (Some 1)
     = [\<lparr>todo_id = 2, creationTime = 2, title = [0x63], description = None, completed = False\<rparr>] \<and>
   listTodos \<lparr>todos =
       [\<lparr>todo_id = 0, creationTime = 0, title = [0x61], description = None, completed = False\<rparr>,
        \<lparr>todo_id = 1, creationTime = 1, title = [0x62], description = None, completed = True\<rparr>,
        \<lparr>todo_id = 2, creationTime = 2, title = [0x63], description = None, completed = False\<rparr>],
       next_id = 3, clock = 3\<rparr> None None
     = [\<lparr>todo_id = 2, creationTime = 2, title = [0x63], description = None, completed = False\<rparr>,
        \<lparr>todo_id = 1, creationTime = 1, title = [0x62], description = None, completed = True\<rparr>,
        \<lparr>todo_id = 0, creationTime = 0, title = [0x61], description = None, completed = False\<rparr>]"
  using listTodos_newest_first [of "\<lparr>todos =
       [\<lparr>todo_id = 0, creationTime = 0, title = [0x61], description = None, completed = False\<rparr>,
        \<lparr>todo_id = 1, creationTime = 1, title = [0x62], description = None, completed = True\<rparr>,
        \<lparr>todo_id = 2, creationTime = 2, title = [0x63], description = None, completed = False\<rparr>],
       next_id = 3, clock = 3\<rparr>" "Some 1" "Some False"]
  by (simp add: wf_db_def listTodos_def withIndex_by_completed_def order_desc_def)

lemma insort_key_snoc:
  "f a \<le> f x \<Longrightarrow> insort_key f a (ys @ [x]) = insort_key f a ys @ [x]"
  by (induction ys) auto

lemma sort_key_snoc:
  assumes "\<forall>y \<in> set xs. f y \<le> f x"
  shows "sort_key f (xs @ [x]) = sort_key f xs @ [x]"
  using assms by (induction xs) (auto simp: insort_key_snoc)

lemma order_desc_snoc:
  assumes "\<forall>y \<in> set xs. creationTime y < creationTime x"
  shows "order_desc (xs @ [x]) = x # order_desc xs"
proof -
  have "\<forall>y \<in> set xs. (creationTime y, todo_id y) \<le> (creationTime x, todo_id x)"
    using assms by auto
  then show ?thesis by (simp add: order_desc_def sort_key_snoc)
qed

lemma trim_a: "trim [0x61] = [0x61]"
  by (simp add: trim_def isWhiteSpace_def)

lemma create_many_props:
  assumes "wf_db s"
  shows "wf_db (create_many n s) \<and>
         length (todos (create_many n s)) = length (todos s) + n \<and>
         filter (\<lambda>d. completed d = True) (todos (create_many n s))
           = filter (\<lambda>d. completed d = True) (todos s) \<and>
         set (todos s) \<subseteq> set (todos (create_many n s))"
proof (induction n)
  case 0
  show ?case using assms by simp
next
  case (Suc n)
  let ?s = "create_many n s"
  have wf: "wf_db ?s" using Suc by simp
  have "createTodo ?s [0x61] None False =
     (Inr \<lparr>todo_id = next_id ?s, creationTime = clock ?s, title = trim [0x61],
           description = map_option trim None, completed = False\<rparr>,
      ?s\<lparr>todos := todos ?s @ [\<lparr>todo_id = next_id ?s, creationTime = clock ?s,
           title = trim [0x61], description = map_option trim None, completed = False\<rparr>],
        next_id := Suc (next_id ?s), clock := Suc (clock ?s)\<rparr>)"
    by (rule createTodo_ok) (simp_all add: wf_db_fresh [OF wf] trim_a)
  then have step: "todos (create_many (Suc n) s) =
      todos ?s @ [\<lparr>todo_id = next_id ?s, creationTime = clock ?s,
           title = trim [0x61], description = map_option trim None, completed = False\<rparr>]"
    by simp
  have "wf_db (create_many (Suc n) s)"
    using wf by (simp add: wf_db_createTodo)
  then show ?case using Suc unfolding step by auto
qed

lemma crowded_base:
  "snd (createTodo \<lparr>todos = [], next_id = 0, clock = 0\<rparr> [0x61] None True) =
     \<lparr>todos = [\<lparr>todo_id = 0, creationTime = 0, title = [0x61], description = None,
                completed = True\<rparr>], next_id = 1, clock = 1\<rparr>"
  by (simp add: createTodo_def db_insert_def db_get_def trim_a)

lemma reachable_create_many: "reachable s \<Longrightarrow> reachable (create_many n s)"
  by (induction n) (simp_all add: reachable.create)

lemma reachable_crowded: "reachable crowded"
  unfolding crowded_def
  by (rule reachable_create_many) (rule reachable.create, rule reachable.init)

text \<open>
  C4 as stated fails once the table holds more than 100 documents: after one completed
  todo and a hundred later open ones, \<open>listTodos\<close> filtered on completed returns the
  completed todo, while the unfiltered call returns the hundred newer ones only.
\<close>

theorem listTodos_subset_counterexample:
  "reachable crowded \<and>
   \<not> set (listTodos crowded (Some True) None) \<subseteq> set (listTodos crowded None None)"
proof (rule conjI [OF reachable_crowded], rule notI)
  let ?d0 = "\<lparr>todo_id = 0, creationTime = 0, title = [0x61], description = None,
              completed = True\<rparr>"
  let ?s1 = "\<lparr>todos = [?d0], next_id = 1, clock = 1\<rparr>"
  let ?all = "listTodos crowded None None"
  assume sub: "set (listTodos crowded (Some True) None) \<subseteq> set ?all"
  have wf1: "wf_db ?s1" by (simp add: wf_db_def)
  have crowded: "crowded = create_many 100 ?s1"
    by (simp only: crowded_def crowded_base)
  have props: "wf_db crowded" "length (todos crowded) = 101"
    "filter (\<lambda>d. completed d = True) (todos crowded) = [?d0]"
    "?d0 \<in> set (todos crowded)"
    using create_many_props [OF wf1, of 100] unfolding crowded by simp_all
  have "listTodos crowded (Some True) None = [?d0]"
    using props(3) by (simp add: listTodos_eq order_desc_def)
  then have d0: "?d0 \<in> set ?all" using sub by simp
  have all: "?all = take 100 (order_desc (todos crowded))"
    by (simp add: listTodos_eq)
  have "distinct (map creationTime (todos crowded))"
    using props(1) by (simp add: wf_db_def)
  then have srt: "sorted_wrt (\<lambda>a b. creationTime b < creationTime a) (order_desc (todos crowded))"
    by (rule order_desc_strict)
  have "distinct (todos crowded)"
    using props(1) by (auto simp: wf_db_def distinct_map)
  then have c101: "card (set (todos crowded)) = 101"
    using props(2) by (simp add: distinct_card)
  have c100: "card (set ?all) \<le> 100"
    using card_length [of ?all] by (simp add: all)
  have "set ?all \<noteq> set (todos crowded)"
    using c100 c101 by auto
  moreover have "set ?all \<subseteq> set (todos crowded)"
    unfolding all using set_take_subset [of 100 "order_desc (todos crowded)"]
    by (simp add: set_order_desc)
  ultimately obtain m where m: "m \<in> set (todos crowded)" "m \<notin> set ?all"
    by blast
  have "creationTime m < creationTime ?d0"
    using srt _ m(2) [unfolded all] d0 [unfolded all]
    by (rule take_newest) (simp add: set_order_desc m(1))
  then show False by simp
qed

text \<open>
  C4, as the code has it. Every document returned for the filter \<open>completed = true\<close> is
  completed and is a document of the table; when the table holds at most 100 documents
  (the default limit), the documents returned for the filter are among those returned
  without a filter.
\<close>

theorem listTodos_completed_subset:
  "(\<forall>r \<in> set (listTodos s (Some True) None). completed r = True) \<and>
   set (listTodos s (Some True) None) \<subseteq> set (todos s) \<and>
   (length (todos s) \<le> 100 \<longrightarrow>
      set (listTodos s (Some True) None) \<subseteq> set (listTodos s None None))"
proof -
  have sub: "set (listTodos s (Some True) None)
       \<subseteq> set (filter (\<lambda>d. completed d = True) (todos s))"
    using set_take_subset [of 100 "order_desc (filter (\<lambda>d. completed d = True) (todos s))"]
    by (simp add: listTodos_eq set_order_desc)
  have "length (todos s) \<le> 100 \<Longrightarrow> set (listTodos s None None) = set (todos s)"
    by (simp add: listTodos_eq set_order_desc length_order_desc)
  then show ?thesis using sub by auto
qed

theorem listTodos_completed_subset_witness:
  "length (todos \<lparr>todos =
       [\<lparr>todo_id = 0, creationTime = 0, title = [0x61], description = None, completed = True\<rparr>,
        \<lparr>todo_id = 1, creationTime = 1, title = [0x62], description = None, completed = False\<rparr>],
       next_id = 2, clock = 2\<rparr>) \<le> 100 \<and>
   listTodos \<lparr>todos =
       [\<lparr>todo_id = 0, creationTime = 0, title = [0x61], description = None, completed = True\<rparr>,
        \<lparr>todo_id = 1, creationTime = 1, title = [0x62], description = None, completed = False\<rparr>],
       next_id = 2, clock = 2\<rparr> (Some True) None
     = [\<lparr>todo_id = 0, creationTime = 0, title = [0x61], description = None, completed = True\<rparr>] \<and>
   set (listTodos \<lparr>todos =
       [\<lparr>todo_id = 0, creationTime = 0, title = [0x61], description = None, completed = True\<rparr>,
        \<lparr>todo_id = 1, creationTime = 1, title = [0x62], description = None, completed = False\<rparr>],
       next_id = 2, clock = 2\<rparr> (Some True) None)
     \<subseteq> set (listTodos \<lparr>todos =
       [\<lparr>todo_id = 0, creationTime = 0, title = [0x61], description = None, completed = True\<rparr>,
        \<lparr>todo_id = 1, creationTime = 1, title = [0x62], description = None, completed = False\<rparr>],
       next_id = 2, clock = 2\<rparr> None None)"
  using listTodos_completed_subset [of "\<lparr>todos =
       [\<lparr>todo_id = 0, creationTime = 0, title = [0x61], description = None, completed = True\<rparr>,
        \<lparr>todo_id = 1, creationTime = 1, title = [0x62], description = None, completed = False\<rparr>],
       next_id = 2, clock = 2\<rparr>"]
  by (simp add: listTodos_def withIndex_by_completed_def order_desc_def)

text \<open>
  C10. With a valid title, \<open>createTodo\<close> with the empty string as description succeeds and
  stores the empty string, and with no description it stores none. \<open>getTodo\<close> on the new
  identifier and the head of \<open>listTodos\<close> return the document as stored, so the two
  cases differ there too.
\<close>

theorem createTodo_empty_description:
  assumes "wf_db s" and "trim t \<noteq> []" and "length t \<le> 200"
  shows "let r0 = \<lparr>todo_id = next_id s, creationTime = clock s, title = trim t,
                   description = Some [], completed = c\<rparr>;
             r1 = \<lparr>todo_id = next_id s, creationTime = clock s, title = trim t,
                   description = None, completed = c\<rparr>;
             s0 = snd (createTodo s t (Some []) c);
             s1 = snd (createTodo s t None c)
         in fst (createTodo s t (Some []) c) = Inr r0 \<and>
            fst (createTodo s t None c) = Inr r1 \<and>
            getTodo s0 (next_id s) = Some r0 \<and>
            getTodo s1 (next_id s) = Some r1 \<and>
            listTodos s0 None None = r0 # take 99 (order_desc (todos s)) \<and>
            listTodos s1 None None = r1 # take 99 (order_desc (todos s)) \<and>
            description r0 \<noteq> description r1"
proof -
  have fresh: "next_id s \<notin> todo_id ` set (todos s)"
    using assms(1) by (rule wf_db_fresh)
  then have none: "find (\<lambda>x. todo_id x = next_id s) (todos s) = None"
    by (force simp: find_None_iff)
  have older: "\<forall>y \<in> set (todos s). creationTime y < clock s"
    using assms(1) by (simp add: wf_db_clock)
  have ok: "createTodo s t d c =
     (Inr \<lparr>todo_id = next_id s, creationTime = clock s, title = trim t,
           description = map_option trim d, completed = c\<rparr>,
      s\<lparr>todos := todos s @ [\<lparr>todo_id = next_id s, creationTime = clock s, title = trim t,
           description = map_option trim d, completed = c\<rparr>],
        next_id := Suc (next_id s), clock := Suc (clock s)\<rparr>)"
    if "d = None \<or> d = Some []" for d
    using fresh assms(2,3) by (rule createTodo_ok) (use that in auto)
  have lst: "listTodos (s\<lparr>todos := todos s @ [r], next_id := n, clock := k\<rparr>) None None
               = r # take 99 (order_desc (todos s))"
    if "creationTime r = clock s" for r n k
    using older that by (simp add: listTodos_eq order_desc_snoc)
  show ?thesis
    unfolding Let_def ok [of None, simplified] ok [of "Some []", simplified] fst_conv snd_conv
    using none by (simp add: lst getTodo_def db_get_def find_append trim_Nil)
qed

theorem createTodo_empty_description_witness:
  "wf_db \<lparr>todos = [], next_id = 0, clock = 0\<rparr> \<and> trim [0x61] \<noteq> [] \<and>
   createTodo \<lparr>todos = [], next_id = 0, clock = 0\<rparr> [0x61] (Some []) False =
     (Inr \<lparr>todo_id = 0, creationTime = 0, title = [0x61], description = Some [],
           completed = False\<rparr>,
      \<lparr>todos = [\<lparr>todo_id = 0, creationTime = 0, title = [0x61], description = Some [],
                 completed = False\<rparr>], next_id = 1, clock = 1\<rparr>) \<and>
   createTodo \<lparr>todos = [], next_id = 0, clock = 0\<rparr> [0x61] None False =
     (Inr \<lparr>todo_id = 0, creationTime = 0, title = [0x61], description = None,
           completed = False\<rparr>,
      \<lparr>todos = [\<lparr>todo_id = 0, creationTime = 0, title = [0x61], description = None,
                 completed = False\<rparr>], next_id = 1, clock = 1\<rparr>) \<and>
   listTodos \<lparr>todos = [\<lparr>todo_id = 0, creationTime = 0, title = [0x61],
       description = Some [], completed = False\<rparr>], next_id = 1, clock = 1\<rparr> None None
     = [\<lparr>todo_id = 0, creationTime = 0, title = [0x61], description = Some [],
         completed = False\<rparr>]"
  using createTodo_empty_description [of "\<lparr>todos = [], next_id = 0, clock = 0\<rparr>" "[0x61]" False]
  by (simp add: wf_db_def trim_def isWhiteSpace_def createTodo_def db_insert_def db_get_def
        listTodos_def order_desc_def)

end
